theory Spec2Isabelle
  imports Complex_Main "HOL-Library.Word"
begin

section \<open>Data model of the scan orchestrator (auto-discovery.cpp)\<close>

text \<open>
  The scan state machine of \<^verbatim>\<open>commands::scan::status::Status\<close>, with the four
  values the source assigns or tests.
\<close>

datatype Status = UNKNOWN | IN_PROGRESS | TERMINATED | CANCELLED_BY_USER

text \<open>
  \<^verbatim>\<open>m_statusDiscovery\<close>: the shared status. The counters are unsigned 32-bit values
  (the source casts the progress to \<^verbatim>\<open>uint32_t\<close>), so \<open>+ 1\<close> wraps.
\<close>

record StatusDiscovery =
  state :: Status
  ups :: "32 word"
  epdu :: "32 word"
  sts :: "32 word"
  sensors :: "32 word"
  discovered :: "32 word"
  progress :: "32 word"

text \<open>
  The scan request \<^verbatim>\<open>commands::scan::start::In\<close>. The discovery type has the four
  values the source names; \<open>OTHER\<close> stands for every other value of the enumeration
  (the last \<^verbatim>\<open>else\<close> of \<^verbatim>\<open>readConfig\<close>).
\<close>

datatype DiscoveryType = LOCAL | IP | MULTI | FULL | OTHER

record Link =
  link_src :: string
  link_type :: nat

record PowerLink =
  source :: string
  link_type_of :: nat

record Discovery =
  discovery_type :: DiscoveryType
  ips :: "string list"
  scans :: "string list"
  protocols :: "string list"
  documents :: "string list"

record Aux =
  parent :: string
  priority :: nat

record ScanIn =
  links :: "Link list"
  discovery :: Discovery
  aux :: Aux

text \<open>
  The thread pool is an external collaborator. The model keeps what the orchestrator
  does to it: the addresses of the \<^verbatim>\<open>scan\<close> workers pushed, in push order, and whether
  an immediate stop was requested.
\<close>

record ThreadPool =
  pushed :: "string list"
  stopped :: bool

text \<open>
  The fields of \<^verbatim>\<open>AutoDiscovery\<close>. The two address counters take the value of
  \<^verbatim>\<open>m_listIpAddress.size()\<close>, an unsigned 64-bit \<^verbatim>\<open>size_t\<close>. \<open>scanCheckThreads\<close>
  is not a field of the class: it counts the detached watchdog threads that
  \<^verbatim>\<open>startThreadScanCheck\<close> has started.
\<close>

record AutoDiscovery =
  m_params :: ScanIn
  m_defaultValuesLinks :: "PowerLink list"
  m_listIpAddress :: "string list"
  m_listIpAddressNb :: "64 word"
  m_listIpAddressCount :: "64 word"
  m_poolScan :: ThreadPool
  m_statusDiscovery :: StatusDiscovery
  scanCheckThreads :: nat

section \<open>Status operations\<close>

definition statusDiscoveryInit :: "AutoDiscovery \<Rightarrow> AutoDiscovery" where
  "statusDiscoveryInit ad =
     ad\<lparr>m_statusDiscovery := (m_statusDiscovery ad)
          \<lparr>state := UNKNOWN, ups := 0, epdu := 0, sts := 0, sensors := 0,
           discovered := 0, progress := 0\<rparr>\<rparr>"

definition statusDiscoveryReset :: "AutoDiscovery \<Rightarrow> AutoDiscovery" where
  "statusDiscoveryReset ad =
     ad\<lparr>m_statusDiscovery := (m_statusDiscovery ad)
          \<lparr>state := IN_PROGRESS, ups := 0, epdu := 0, sts := 0, sensors := 0,
           discovered := 0, progress := 0\<rparr>\<rparr>"

text \<open>
  \<^verbatim>\<open>updateStatusDiscoveryCounters\<close>: the subtype counter first, then the total; the
  last branch logs and returns before the total is touched.
\<close>

definition updateStatusDiscoveryCounters :: "string \<Rightarrow> AutoDiscovery \<Rightarrow> AutoDiscovery" where
  "updateStatusDiscoveryCounters deviceSubType ad =
     (let st = m_statusDiscovery ad in
      if deviceSubType = ''ups'' then
        ad\<lparr>m_statusDiscovery := st\<lparr>ups := ups st + 1, discovered := discovered st + 1\<rparr>\<rparr>
      else if deviceSubType = ''epdu'' then
        ad\<lparr>m_statusDiscovery := st\<lparr>epdu := epdu st + 1, discovered := discovered st + 1\<rparr>\<rparr>
      else if deviceSubType = ''sts'' then
        ad\<lparr>m_statusDiscovery := st\<lparr>sts := sts st + 1, discovered := discovered st + 1\<rparr>\<rparr>
      else if deviceSubType = ''sensor'' then
        ad\<lparr>m_statusDiscovery := st\<lparr>sensors := sensors st + 1, discovered := discovered st + 1\<rparr>\<rparr>
      else ad)"

text \<open>
  \<^verbatim>\<open>static_cast<uint32_t>(std::round(q))\<close> for an unsigned 64-bit \<open>q\<close>: the
  operands of the quotient are integers, so \<open>q\<close> is already an integer when
  \<^verbatim>\<open>std::round\<close> receives it and rounding changes nothing. Below \<open>2 ^ 32\<close> the cast
  keeps the value; above, C++ leaves the conversion undefined and the model keeps the
  low 32 bits.
\<close>

definition round_to_uint32 :: "64 word \<Rightarrow> 32 word" where
  "round_to_uint32 q = ucast q"

text \<open>
  \<^verbatim>\<open>updateStatusDiscoveryProgress\<close>: the remaining count is decremented first
  (wrapping at zero), then the percentage is computed with the unsigned integer
  division of C++ and capped at 100.
\<close>

definition updateStatusDiscoveryProgress :: "AutoDiscovery \<Rightarrow> AutoDiscovery" where
  "updateStatusDiscoveryProgress ad =
     (let cnt = m_listIpAddressCount ad - 1;
          nb = m_listIpAddressNb ad;
          p = (if nb \<noteq> 0 then
                 (let p0 = round_to_uint32 ((100 * (nb - cnt)) div nb)
                  in if p0 > 100 then 100 else p0)
               else 100)
      in ad\<lparr>m_listIpAddressCount := cnt,
            m_statusDiscovery := (m_statusDiscovery ad)\<lparr>progress := p\<rparr>\<rparr>)"

text \<open>
  The progress formula as the specification words it: the quotient taken in exact
  arithmetic, rounded to the nearest integer, capped at 100, and 100 when there is no
  address at all. \<open>N\<close> is the total, \<open>r\<close> the remaining count after the completion.
\<close>

definition progress_spec :: "nat \<Rightarrow> nat \<Rightarrow> int" where
  "progress_spec N r =
     (if N = 0 then 100
      else min 100 (round ((100 * (real N - real r)) / real N)))"

definition resetPoolScan :: "AutoDiscovery \<Rightarrow> AutoDiscovery" where
  "resetPoolScan ad = ad\<lparr>m_poolScan := \<lparr>pushed = [], stopped = False\<rparr>\<rparr>"

definition stopPoolScan :: "AutoDiscovery \<Rightarrow> AutoDiscovery" where
  "stopPoolScan ad = ad\<lparr>m_poolScan := (m_poolScan ad)\<lparr>stopped := True\<rparr>\<rparr>"

text \<open>
  \<^verbatim>\<open>scanCheck\<close>, with the stall workaround compiled out as in the source
  (\<^verbatim>\<open>#undef WORK_AROUND_SCAN_BLOCKING\<close>). The two occupancy counts are read from the
  pool and are inputs here.
\<close>

definition scanCheck :: "nat \<Rightarrow> nat \<Rightarrow> AutoDiscovery \<Rightarrow> bool \<times> AutoDiscovery" where
  "scanCheck countPendingTasks countActiveTasks ad =
     (if countActiveTasks = 0 then
        (True, ad\<lparr>m_statusDiscovery := (m_statusDiscovery ad)\<lparr>state := TERMINATED\<rparr>\<rparr>)
      else (False, ad))"

definition stop :: "AutoDiscovery \<Rightarrow> (string + unit) \<times> AutoDiscovery" where
  "stop ad =
     (if state (m_statusDiscovery ad) = IN_PROGRESS then
        (Inr (), stopPoolScan
           (ad\<lparr>m_statusDiscovery := (m_statusDiscovery ad)\<lparr>state := CANCELLED_BY_USER\<rparr>\<rparr>))
      else (Inl ''No scan in progress'', ad))"

section \<open>Reading the request and starting a scan\<close>

text \<open>
  \<^verbatim>\<open>fty::unexpected(msg)\<close> builds the error value of an \<^verbatim>\<open>Expected\<close>; nothing is
  returned or thrown by building it.
\<close>

definition unexpected :: "string \<Rightarrow> string + unit" where
  "unexpected msg = Inl msg"

text \<open>
  The address parser (\<^verbatim>\<open>impl/address.h\<close>) is an external collaborator: the expansion
  of one range, and of the local subnet, are parameters.
\<close>

record AddressParser =
  getRangeIp :: "string \<Rightarrow> string + string list"
  getLocalRangeIp :: "string + string list"

fun readConfig_links :: "Link list \<Rightarrow> PowerLink list \<Rightarrow> PowerLink list" where
  "readConfig_links [] acc = acc"
| "readConfig_links (link # rest) acc =
     (if \<not> (link_src link = ''0'')
      then readConfig_links rest (acc @ [\<lparr>source = link_src link, link_type_of = link_type link\<rparr>])
      else readConfig_links rest acc)"

fun readConfig_ranges :: "AddressParser \<Rightarrow> string list \<Rightarrow> string list \<Rightarrow> string list" where
  "readConfig_ranges env [] acc = acc"
| "readConfig_ranges env (r # rest) acc =
     (case getRangeIp env r of
        Inr listIp \<Rightarrow> readConfig_ranges env rest (acc @ listIp)
      | Inl err \<Rightarrow> readConfig_ranges env rest acc)"

text \<open>
  \<^verbatim>\<open>readConfig\<close>. In the four places where the source writes
  \<^verbatim>\<open>fty::unexpected("...");\<close> as a statement, the error value is built and dropped
  (bound to \<open>dropped\<close> below) and control goes on; the only \<^verbatim>\<open>return\<close> of the function
  is the final \<^verbatim>\<open>return {}\<close>.
\<close>

definition readConfig ::
  "AddressParser \<Rightarrow> ScanIn \<Rightarrow> AutoDiscovery \<Rightarrow> (string + unit) \<times> AutoDiscovery" where
  "readConfig env inp ad =
     (let d = discovery inp;
          ad1 = ad\<lparr>m_defaultValuesLinks := readConfig_links (links inp) []\<rparr>;
          listIp =
            (if discovery_type d = IP then
               (let dropped = (if length (ips d) = 0 then unexpected ''Ips list empty'' else Inr ())
                in [] @ ips d)
             else if discovery_type d = MULTI then
               (let dropped = (if length (scans d) = 0 then unexpected ''Scans list empty'' else Inr ())
                in readConfig_ranges env (scans d) [])
             else if discovery_type d = FULL then
               (let dropped = (if length (ips d) = 0 \<and> length (scans d) = 0
                               then unexpected ''Ips and scans list empty'' else Inr ());
                    l1 = (if length (ips d) > 0 then [] @ ips d else []);
                    l2 = (if length (scans d) > 0 then readConfig_ranges env (scans d) l1 else l1)
                in l2)
             else if discovery_type d = LOCAL then
               (case getLocalRangeIp env of
                  Inr listIp \<Rightarrow> [] @ listIp
                | Inl err \<Rightarrow> [])
             else
               (let dropped = unexpected ''Bad scan type''
                in []))
      in (Inr (), ad1\<lparr>m_listIpAddress := listIp\<rparr>))"

text \<open>
  The dispatch loop of \<^verbatim>\<open>start\<close>: every address is pushed to the pool as one
  \<^verbatim>\<open>scan\<close> worker and erased from the list.
\<close>

fun start_dispatch :: "string list \<Rightarrow> AutoDiscovery \<Rightarrow> AutoDiscovery" where
  "start_dispatch [] ad = ad"
| "start_dispatch (ip # rest) ad =
     start_dispatch rest
       (ad\<lparr>m_poolScan := (m_poolScan ad)\<lparr>pushed := pushed (m_poolScan ad) @ [ip]\<rparr>,
           m_listIpAddress := rest\<rparr>)"

definition startThreadScanCheck :: "AutoDiscovery \<Rightarrow> AutoDiscovery" where
  "startThreadScanCheck ad = ad\<lparr>scanCheckThreads := scanCheckThreads ad + 1\<rparr>"

definition start ::
  "AddressParser \<Rightarrow> ScanIn \<Rightarrow> AutoDiscovery \<Rightarrow> (string + unit) \<times> AutoDiscovery" where
  "start env inp ad =
     (if state (m_statusDiscovery ad) \<noteq> IN_PROGRESS then
        (let ad1 = resetPoolScan (statusDiscoveryReset (ad\<lparr>m_params := inp\<rparr>))
         in case readConfig env inp ad1 of
              (Inl err, ad2) \<Rightarrow> (Inl (''Bad input parameter: '' @ err), ad2)
            | (Inr res, ad2) \<Rightarrow>
                (let n = of_nat (length (m_listIpAddress ad2));
                     ad3 = ad2\<lparr>m_listIpAddressNb := n, m_listIpAddressCount := n\<rparr>;
                     ad4 = start_dispatch (m_listIpAddress ad3) ad3
                 in (Inr (), startThreadScanCheck ad4)))
      else (Inl ''Scan in progress'', ad))"

section \<open>Extended attributes\<close>

text \<open>
  One attribute of \<^verbatim>\<open>asset::create::Ext\<close>.

  Modelled from the spec: the default-constructed \<^verbatim>\<open>MapExtObj\<close>, whose declaration
  (\<^verbatim>\<open>asset/asset-manager.h\<close>) is not under src/. The specification gives an attribute
  the fields value, readOnly and update, and makes an attribute without a
  \<^verbatim>\<open>read_only\<close> entry writable; the comment of \<^verbatim>\<open>updateExt\<close> shows update as true.
\<close>

record MapExtObj =
  ext_value :: string
  ext_readOnly :: bool
  ext_update :: bool

definition MapExtObj_default :: MapExtObj where
  "MapExtObj_default = \<lparr>ext_value = [], ext_readOnly = False, ext_update = True\<rparr>"

text \<open>
  An input map is the list of its entries in iteration order; the output is the list
  of the entries appended, in append order.
\<close>

type_synonym StringMap = "(string \<times> string) list"
type_synonym Ext = "(string \<times> MapExtObj) list"

fun updateExt_attributes :: "StringMap \<Rightarrow> string \<times> MapExtObj \<Rightarrow> string \<times> MapExtObj" where
  "updateExt_attributes [] acc = acc"
| "updateExt_attributes ((key, val) # rest) (keyVal, newMapExtObj) =
     (if key = ''read_only'' then
        updateExt_attributes rest
          (keyVal, newMapExtObj\<lparr>ext_readOnly := (if val = ''true'' then True else False)\<rparr>)
      else
        updateExt_attributes rest (key, newMapExtObj\<lparr>ext_value := val\<rparr>))"

fun updateExt :: "StringMap list \<Rightarrow> Ext \<Rightarrow> (string + unit) \<times> Ext" where
  "updateExt [] extOut = (Inr (), extOut)"
| "updateExt (it # rest) extOut =
     (case updateExt_attributes it ([], MapExtObj_default) of
        (keyVal, newMapExtObj) \<Rightarrow>
          (if keyVal \<noteq> [] then updateExt rest (extOut @ [(keyVal, newMapExtObj)])
           else updateExt rest extOut))"

text \<open>
  The translation rule as the specification words it, for one input map: the
  attribute is named by a key other than \<^verbatim>\<open>read_only\<close> (the last one in iteration
  order, should there be several), it is read-only exactly when the map's
  \<^verbatim>\<open>read_only\<close> entry is \<^verbatim>\<open>"true"\<close>, and a map without such a key gives nothing.
\<close>

definition ext_keys :: "StringMap \<Rightarrow> StringMap" where
  "ext_keys m = filter (\<lambda>kv. fst kv \<noteq> ''read_only'') m"

definition ext_flags :: "StringMap \<Rightarrow> StringMap" where
  "ext_flags m = filter (\<lambda>kv. fst kv = ''read_only'') m"

definition ext_is_read_only :: "StringMap \<Rightarrow> bool" where
  "ext_is_read_only m = (ext_flags m \<noteq> [] \<and> snd (last (ext_flags m)) = ''true'')"

definition ext_attribute_spec :: "StringMap \<Rightarrow> (string \<times> MapExtObj) option" where
  "ext_attribute_spec m =
     (if ext_keys m = [] then None
      else Some (fst (last (ext_keys m)),
                 \<lparr>ext_value = snd (last (ext_keys m)),
                  ext_readOnly = ext_is_read_only m,
                  ext_update = True\<rparr>))"

section \<open>Host name\<close>

text \<open>
  C strings: a buffer is read up to its first NUL byte; \<^verbatim>\<open>strchr\<close> gives the position
  of the first occurrence of a character in that string, if any.
\<close>

definition c_str :: "string \<Rightarrow> string" where
  "c_str buf = takeWhile (\<lambda>c. c \<noteq> CHR 0x00) buf"

definition strchr :: "string \<Rightarrow> char \<Rightarrow> nat option" where
  "strchr buf c =
     (if c \<in> set (c_str buf) then Some (length (takeWhile (\<lambda>x. x \<noteq> c) (c_str buf)))
      else None)"

text \<open>
  The resolver is external: \<^verbatim>\<open>inet_aton\<close> gives the parsed IPv4 address or fails,
  \<^verbatim>\<open>getnameinfo\<close> (with \<^verbatim>\<open>NI_NAMEREQD\<close>) gives the bytes it wrote to the name
  buffer or fails.
\<close>

record Resolver =
  inet_aton :: "string \<Rightarrow> 32 word option"
  getnameinfo :: "32 word \<Rightarrow> string option"

definition updateHostName :: "Resolver \<Rightarrow> string \<Rightarrow> Ext \<Rightarrow> (string + unit) \<times> Ext" where
  "updateHostName env address ext =
     (if address \<noteq> [] then
        (case inet_aton env (c_str address) of
           Some sin_addr \<Rightarrow>
             (case getnameinfo env sin_addr of
                Some dnsName \<Rightarrow>
                  (let ext1 = ext @ [(''dns.1'',
                         MapExtObj_default\<lparr>ext_value := c_str dnsName, ext_readOnly := False\<rparr>)];
                       dnsName1 = (case strchr dnsName CHR ''.'' of
                                     Some p \<Rightarrow> dnsName[p := CHR 0x00]
                                   | None \<Rightarrow> dnsName);
                       ext2 = ext1 @ [(''hostname'',
                         MapExtObj_default\<lparr>ext_value := c_str dnsName1, ext_readOnly := False\<rparr>)]
                   in (Inr (), ext2))
              | None \<Rightarrow> (Inl (''No host information retrieved from DNS for '' @ address), ext))
         | None \<Rightarrow> (Inl (''Error during read DNS for '' @ address), ext))
      else (Inl ''Ip address empty'', ext))"

section \<open>The protocol probe (protocols.cpp)\<close>

datatype Available = No | Yes | Maybe

record Return =
  protocol :: string
  port :: nat
  reachable :: bool
  available :: Available

record ProtocolsIn =
  address :: string
  in_protocols :: "string list"

record ProductInfo =
  product_name :: string
  product_protocol :: string
  summary_url :: string

text \<open>What the probe does to the outside world, in the order it does it.\<close>

datatype IoEvent =
    Ping string
  | HttpGet string string nat string
  | GetAddrInfo string nat
  | Socket
  | Connect
  | Poll
  | GetSockOpt
  | Write nat

text \<open>
  The network is external: every call the probe makes is a parameter. \<open>ping_available\<close>
  is \<^verbatim>\<open>available\<close> of \<^verbatim>\<open>impl/ping.h\<close>; the two \<open>xml_get\<close> fields are
  \<^verbatim>\<open>XmlPdc::get\<close> for the product and the properties document; \<open>neon_get\<close> is
  \<^verbatim>\<open>Neon::get\<close>; \<open>yaml_device_type\<close> loads the document and reads its
  \<^verbatim>\<open>device-type\<close>, with \<open>Inl\<close> for the text of the exception thrown. The socket calls
  give their return value, paired with the \<^verbatim>\<open>errno\<close> they leave (for
  \<^verbatim>\<open>getsockopt\<close>: the option value when it returns 0); \<open>sock_write\<close> gives, for
  \<open>k\<close>, the return value of the \<open>k\<close>-th write on the socket. \<open>available_default\<close>
  is the value of \<^verbatim>\<open>available\<close> in a default-constructed result, which the header
  of the command, not among the sources, fixes.
\<close>

record Network =
  ping_available :: "string \<Rightarrow> bool"
  xml_get_product :: "string \<Rightarrow> nat \<Rightarrow> string \<Rightarrow> string + ProductInfo"
  xml_get_properties :: "string \<Rightarrow> nat \<Rightarrow> string \<Rightarrow> string + unit"
  neon_get :: "string \<Rightarrow> nat \<Rightarrow> string \<Rightarrow> string + string"
  yaml_device_type :: "string \<Rightarrow> string + string"
  getaddrinfo :: "string \<Rightarrow> nat \<Rightarrow> int"
  gai_strerror :: "int \<Rightarrow> string"
  socket :: "string \<Rightarrow> nat \<Rightarrow> int \<times> int"
  connect :: "string \<Rightarrow> nat \<Rightarrow> int \<times> int"
  poll :: "string \<Rightarrow> nat \<Rightarrow> int \<times> int"
  getsockopt :: "string \<Rightarrow> nat \<Rightarrow> int \<times> int"
  strerror :: "int \<Rightarrow> string"
  sock_write :: "string \<Rightarrow> nat \<Rightarrow> nat \<Rightarrow> int"
  available_default :: Available

definition Return_default :: "Network \<Rightarrow> Return" where
  "Return_default env =
     \<lparr>protocol = [], port = 0, reachable = False, available = available_default env\<rparr>"

definition tryXmlPdc :: "Network \<Rightarrow> ProtocolsIn \<Rightarrow> nat \<Rightarrow> (string + unit) \<times> IoEvent list" where
  "tryXmlPdc env inp p =
     (case xml_get_product env (address inp) p ''product.xml'' of
        Inr product \<Rightarrow>
          (if \<not> (product_name product = ''Network Management Card''
                  \<or> product_name product = ''HPE UPS Network Module'')
           then (Inl ''unsupported card type'', [HttpGet ''http'' (address inp) p ''product.xml''])
           else if product_protocol product = ''XML.V4''
           then (Inl ''unsupported XML.V4'', [HttpGet ''http'' (address inp) p ''product.xml''])
           else
             (case xml_get_properties env (address inp) p (summary_url product) of
                Inr props \<Rightarrow>
                  (Inr (), [HttpGet ''http'' (address inp) p ''product.xml'',
                            HttpGet ''http'' (address inp) p (summary_url product)])
              | Inl err \<Rightarrow>
                  (Inl err, [HttpGet ''http'' (address inp) p ''product.xml'',
                             HttpGet ''http'' (address inp) p (summary_url product)])))
      | Inl err \<Rightarrow> (Inl err, [HttpGet ''http'' (address inp) p ''product.xml'']))"

definition tryPowercom :: "Network \<Rightarrow> ProtocolsIn \<Rightarrow> nat \<Rightarrow> (string + unit) \<times> IoEvent list" where
  "tryPowercom env inp p =
     (let path = ''etn/v1/comm/services/powerdistributions1'';
          io = [HttpGet ''https'' (address inp) p path]
      in case neon_get env (address inp) p path of
           Inr content \<Rightarrow>
             (case yaml_device_type env content of
                Inr deviceType \<Rightarrow>
                  (if deviceType = ''ups'' then (Inr (), io)
                   else if deviceType = ''ats'' then (Inr (), io)
                   else (Inl (''not supported device ('' @ deviceType @ '')''), io))
              | Inl what \<Rightarrow> (Inl (''not supported device ('' @ what @ '')''), io))
         | Inl err \<Rightarrow> (Inl err, io))"

definition EINPROGRESS :: int where
  "EINPROGRESS = 115"

definition ETIMEDOUT :: int where
  "ETIMEDOUT = 110"

text \<open>
  \<^verbatim>\<open>timeoutConnect\<close>: the result, the \<^verbatim>\<open>errno\<close> it leaves, and the calls made. It
  fails only when \<^verbatim>\<open>poll\<close> returns something other than 0 or 1.
\<close>

definition timeoutConnect ::
  "Network \<Rightarrow> string \<Rightarrow> nat \<Rightarrow> (string + unit) \<times> int \<times> IoEvent list" where
  "timeoutConnect env a p =
     (case connect env a p of
        (ret, errno) \<Rightarrow>
          (if ret \<noteq> 0 \<and> errno = EINPROGRESS then
             (case poll env a p of
                (ret1, errno1) \<Rightarrow>
                  (if ret1 = 1 then
                     (Inr (), snd (getsockopt env a p), [Connect, Poll, GetSockOpt])
                   else if ret1 = 0 then (Inr (), ETIMEDOUT, [Connect, Poll])
                   else (Inl ''poll failed'', errno1, [Connect, Poll])))
           else (Inr (), errno, [Connect])))"

text \<open>
  The write loop of \<^verbatim>\<open>trySnmp\<close>, \<^verbatim>\<open>for (int i = 0; i < N; i++)\<close> with \<open>N = 20\<close>:
  the first write that returns \<open>-1\<close> ends the probe.
\<close>

function trySnmp_writes :: "(nat \<Rightarrow> int) \<Rightarrow> nat \<Rightarrow> (string + unit) \<times> IoEvent list" where
  "trySnmp_writes wr i =
     (if i < 20 then
        (if wr i = - 1 then (Inl ''Socket write failed'', [Write i])
         else (case trySnmp_writes wr (i + 1) of (res, io) \<Rightarrow> (res, Write i # io)))
      else (Inr (), []))"
  by pat_completeness auto
termination
  by (relation "measure (\<lambda>(wr, i). 20 - i)") auto

declare trySnmp_writes.simps [simp del]

definition trySnmp :: "Network \<Rightarrow> ProtocolsIn \<Rightarrow> nat \<Rightarrow> (string + unit) \<times> IoEvent list" where
  "trySnmp env inp p =
     (let a = address inp;
          ret = getaddrinfo env (c_str a) p
      in if ret \<noteq> 0 then (Inl (gai_strerror env ret), [GetAddrInfo a p])
         else
           (case socket env a p of
              (sock, errno) \<Rightarrow>
                (if sock = - 1 then (Inl (strerror env errno), [GetAddrInfo a p, Socket])
                 else
                   (case timeoutConnect env a p of
                      (Inl err, errno1, io) \<Rightarrow>
                        (Inl (strerror env errno1), [GetAddrInfo a p, Socket] @ io)
                    | (Inr ok, errno1, io) \<Rightarrow>
                        (case trySnmp_writes (sock_write env a p) 0 of
                           (res, io1) \<Rightarrow> (res, [GetAddrInfo a p, Socket] @ io @ io1))))))"

text \<open>
  \<^verbatim>\<open>Protocols::run\<close>. The table of tries, in the order of preference of the source;
  one iteration of the loop over it; the loop; and the function, where the thrown
  \<^verbatim>\<open>Error\<close> is the \<open>Inl\<close> result. \<open>out\<close> is the list the caller passes in, to which the
  results are appended.
\<close>

datatype Type = Powercom | Xml | Snmp

definition tries :: "(Type \<times> string \<times> nat) list" where
  "tries = [(Powercom, ''nut_powercom'', 443), (Xml, ''nut_xml_pdc'', 80), (Snmp, ''nut_snmp'', 161)]"

fun run_try :: "Network \<Rightarrow> ProtocolsIn \<Rightarrow> Type \<times> string \<times> nat \<Rightarrow> Return \<times> IoEvent list" where
  "run_try env inp (Powercom, protocolStr, p) =
     (let r = (Return_default env)
                \<lparr>protocol := protocolStr, port := p, reachable := False, available := No\<rparr>
      in case tryPowercom env inp p of
           (Inr ok, io) \<Rightarrow> (r\<lparr>reachable := True, available := Yes\<rparr>, io)
         | (Inl err, io) \<Rightarrow> (r, io))"
| "run_try env inp (Xml, protocolStr, p) =
     (let r = (Return_default env)
                \<lparr>protocol := protocolStr, port := p, reachable := False, available := No\<rparr>
      in case tryXmlPdc env inp p of
           (Inr ok, io) \<Rightarrow> (r\<lparr>reachable := True, available := Yes\<rparr>, io)
         | (Inl err, io) \<Rightarrow> (r, io))"
| "run_try env inp (Snmp, protocolStr, p) =
     (let r = (Return_default env)
                \<lparr>protocol := protocolStr, port := p, reachable := False, available := No\<rparr>
      in case trySnmp env inp p of
           (Inr ok, io) \<Rightarrow> (r\<lparr>reachable := True, available := Maybe\<rparr>, io)
         | (Inl err, io) \<Rightarrow> (r, io))"

fun run_tries ::
  "Network \<Rightarrow> ProtocolsIn \<Rightarrow> (Type \<times> string \<times> nat) list \<Rightarrow> Return list \<Rightarrow> Return list \<times> IoEvent list" where
  "run_tries env inp [] out = (out, [])"
| "run_tries env inp (try # rest) out =
     (case run_try env inp try of
        (r, io) \<Rightarrow>
          (case run_tries env inp rest (out @ [r]) of
             (out1, io1) \<Rightarrow> (out1, io @ io1)))"

definition run ::
  "Network \<Rightarrow> ProtocolsIn \<Rightarrow> Return list \<Rightarrow> (string + Return list) \<times> IoEvent list" where
  "run env inp out =
     (if address inp = ''__fake__'' then
        (let x = (Return_default env)\<lparr>protocol := ''nut_snmp'', port := 1234, reachable := True\<rparr>;
             y = (Return_default env)\<lparr>protocol := ''nut_xml_pdc'', port := 4321, reachable := False\<rparr>
         in (Inr (out @ [x, y]), []))
      else if \<not> ping_available env (address inp) then
        (Inl (''Host is not available: '' @ address inp), [Ping (address inp)])
      else
        (case run_tries env inp tries out of
           (out1, io) \<Rightarrow> (Inr out1, Ping (address inp) # io)))"

section \<open>The probe as the scan task calls it\<close>

text \<open>
  What a call to a collaborator can do: give its value, give the error of an
  \<^verbatim>\<open>Expected\<close>, or throw.
\<close>

datatype 'a Called = Returned 'a | Failed string | Thrown string



section \<open>The scan task of one address\<close>

record AssetsIn =
  asset_address :: string
  asset_protocol :: string
  asset_port :: nat
  credentialId :: string

record Sensor =
  sensor_type :: string
  sensor_subtype :: string
  sensor_ext :: "StringMap list"

record AssetOut =
  asset_type :: string
  asset_subtype :: string
  asset_ext :: "StringMap list"
  asset_sensors :: "Sensor list"

datatype AssetStatus = ACTIVE | NONACTIVE

record Request =
  req_type :: string
  req_sub_type :: string
  req_status :: AssetStatus
  req_priority :: nat
  req_linked :: "PowerLink list"
  req_parent :: string
  req_ext :: Ext

text \<open>
  The collaborators of the task are parameters, each a function of its arguments:
  \<open>getProtocols\<close> is the probe as \<^verbatim>\<open>scan\<close> calls it, \<open>getAssets\<close> the enumeration
  (\<open>Returned\<close> with the candidates it wrote), \<open>create_run\<close> is
  \<^verbatim>\<open>asset::create::run\<close> and gives the name of the asset created. Each of them can
  also fail or throw.
\<close>

record ScanEnv =
  getProtocols :: "ProtocolsIn \<Rightarrow> Return list Called"
  getAssets :: "AssetsIn \<Rightarrow> AssetOut list Called"
  create_run :: "Request \<Rightarrow> string Called"
  isDeviceCentricView :: bool
  resolver :: Resolver

text \<open>
  The calls of a task to the enumeration and to the asset creation, in order, and the
  exception its \<^verbatim>\<open>catch\<close> has logged.
\<close>

datatype ScanEvent = Enumerate AssetsIn | Publish Request | Caught string

definition getAssetStatus :: "ScanEnv \<Rightarrow> AssetStatus" where
  "getAssetStatus env = (if isDeviceCentricView env then ACTIVE else NONACTIVE)"

definition parent_or_empty :: "AutoDiscovery \<Rightarrow> string" where
  "parent_or_empty ad =
     (if parent (aux (m_params ad)) = ''0'' then [] else parent (aux (m_params ad)))"

text \<open>
  The loops of \<^verbatim>\<open>scan\<close>, innermost first. Each gives, first, the exception that
  left it, if one did: an exception thrown by a collaborator ends every loop around
  the call and reaches the \<^verbatim>\<open>catch\<close> at the end of \<^verbatim>\<open>scan\<close>.
\<close>

fun scan_sensors ::
  "ScanEnv \<Rightarrow> string \<Rightarrow> Sensor list \<Rightarrow> AutoDiscovery
     \<Rightarrow> string option \<times> AutoDiscovery \<times> ScanEvent list" where
  "scan_sensors env assetNameCreated [] ad = (None, ad, [])"
| "scan_sensors env assetNameCreated (sensor # rest) ad =
     (let extLogicalAsset = [(''logical_asset'', parent_or_empty ad), (''read_only'', ''false'')];
          extParentName = [(''parent_name.1'', assetNameCreated), (''read_only'', ''false'')];
          reqSensor =
            \<lparr>req_type = sensor_type sensor,
             req_sub_type = sensor_subtype sensor,
             req_status = getAssetStatus env,
             req_priority = priority (aux (m_params ad)),
             req_linked = [],
             req_parent = assetNameCreated,
             req_ext = snd (updateExt (sensor_ext sensor @ [extLogicalAsset] @ [extParentName]) [])\<rparr>
      in case create_run env reqSensor of
           Thrown what \<Rightarrow> (Some what, ad, [Publish reqSensor])
         | Failed err \<Rightarrow>
             (case scan_sensors env assetNameCreated rest ad of
                (thrown, ad1, ev) \<Rightarrow> (thrown, ad1, Publish reqSensor # ev))
         | Returned resSensor \<Rightarrow>
             (case scan_sensors env assetNameCreated rest
                     (updateStatusDiscoveryCounters (sensor_subtype sensor) ad) of
                (thrown, ad1, ev) \<Rightarrow> (thrown, ad1, Publish reqSensor # ev)))"

fun scan_assets ::
  "ScanEnv \<Rightarrow> string \<Rightarrow> AssetOut list \<Rightarrow> AutoDiscovery
     \<Rightarrow> string option \<times> AutoDiscovery \<times> ScanEvent list" where
  "scan_assets env ipAddress [] ad = (None, ad, [])"
| "scan_assets env ipAddress (asset # rest) ad =
     (let ext1 = snd (updateExt (asset_ext asset) []);
          ext2 = snd (updateHostName (resolver env) ipAddress ext1);
          req =
            \<lparr>req_type = asset_type asset,
             req_sub_type = asset_subtype asset,
             req_status = getAssetStatus env,
             req_priority = priority (aux (m_params ad)),
             req_linked = m_defaultValuesLinks ad,
             req_parent = parent_or_empty ad,
             req_ext = ext2\<rparr>
      in case create_run env req of
           Thrown what \<Rightarrow> (Some what, ad, [Publish req])
         | Failed err \<Rightarrow>
             (case scan_assets env ipAddress rest ad of
                (thrown, ad1, ev) \<Rightarrow> (thrown, ad1, Publish req # ev))
         | Returned assetNameCreated \<Rightarrow>
             (case scan_sensors env assetNameCreated (asset_sensors asset)
                     (updateStatusDiscoveryCounters (asset_subtype asset) ad) of
                (Some what, ad1, ev1) \<Rightarrow> (Some what, ad1, Publish req # ev1)
              | (None, ad1, ev1) \<Rightarrow>
                  (case scan_assets env ipAddress rest ad1 of
                     (thrown, ad2, ev2) \<Rightarrow> (thrown, ad2, Publish req # ev1 @ ev2))))"

text \<open>
  The credential loop for one reachable protocol: the flag is \<^verbatim>\<open>found\<close>, set where
  \<^verbatim>\<open>getAssets\<close> succeeds, after the loop over what it returned.
\<close>

fun scan_documents ::
  "ScanEnv \<Rightarrow> string \<Rightarrow> Return \<Rightarrow> string list \<Rightarrow> AutoDiscovery
     \<Rightarrow> string option \<times> bool \<times> AutoDiscovery \<times> ScanEvent list" where
  "scan_documents env ipAddress elt [] ad = (None, False, ad, [])"
| "scan_documents env ipAddress elt (doc # rest) ad =
     (let inAsset =
            \<lparr>asset_address = ipAddress, asset_protocol = protocol elt,
             asset_port = port elt, credentialId = doc\<rparr>
      in case getAssets env inAsset of
           Thrown what \<Rightarrow> (Some what, False, ad, [Enumerate inAsset])
         | Returned outAsset \<Rightarrow>
             (case scan_assets env ipAddress outAsset ad of
                (Some what, ad1, ev) \<Rightarrow> (Some what, False, ad1, Enumerate inAsset # ev)
              | (None, ad1, ev) \<Rightarrow> (None, True, ad1, Enumerate inAsset # ev))
         | Failed err \<Rightarrow>
             (case scan_documents env ipAddress elt rest ad of
                (thrown, found, ad1, ev) \<Rightarrow> (thrown, found, ad1, Enumerate inAsset # ev)))"

fun scan_protocols ::
  "ScanEnv \<Rightarrow> string \<Rightarrow> Return list \<Rightarrow> AutoDiscovery
     \<Rightarrow> string option \<times> AutoDiscovery \<times> ScanEvent list" where
  "scan_protocols env ipAddress [] ad = (None, ad, [])"
| "scan_protocols env ipAddress (elt # rest) ad =
     (if reachable elt then
        (case scan_documents env ipAddress elt (documents (discovery (m_params ad))) ad of
           (Some what, found, ad1, ev) \<Rightarrow> (Some what, ad1, ev)
         | (None, found, ad1, ev) \<Rightarrow>
             (if found then (None, ad1, ev)
              else (case scan_protocols env ipAddress rest ad1 of
                      (thrown, ad2, ev2) \<Rightarrow> (thrown, ad2, ev @ ev2))))
      else scan_protocols env ipAddress rest ad)"

text \<open>The input of the probe that \<^verbatim>\<open>scan\<close> builds: the address and the request's filter.\<close>

definition scan_inProt :: "string \<Rightarrow> AutoDiscovery \<Rightarrow> ProtocolsIn" where
  "scan_inProt ipAddress ad =
     \<lparr>address = ipAddress, in_protocols = protocols (discovery (m_params ad))\<rparr>"

text \<open>
  \<^verbatim>\<open>scan\<close>, for the orchestrator that pushed the task (the pointer is \<^verbatim>\<open>this\<close>,
  never null). The progress is updated on the way out of every path: after a failed
  probe, after the loops, and after the \<^verbatim>\<open>catch\<close>, which logs the exception.
\<close>

definition scan :: "ScanEnv \<Rightarrow> string \<Rightarrow> AutoDiscovery \<Rightarrow> AutoDiscovery \<times> ScanEvent list" where
  "scan env ipAddress ad =
     (case getProtocols env (scan_inProt ipAddress ad) of
        Thrown what \<Rightarrow> (updateStatusDiscoveryProgress ad, [Caught what])
      | Failed err \<Rightarrow> (updateStatusDiscoveryProgress ad, [])
      | Returned listProtocols \<Rightarrow>
          (case scan_protocols env ipAddress listProtocols ad of
             (Some what, ad1, ev) \<Rightarrow> (updateStatusDiscoveryProgress ad1, ev @ [Caught what])
           | (None, ad1, ev) \<Rightarrow> (updateStatusDiscoveryProgress ad1, ev)))"

section \<open>Statements and concrete inputs\<close>

text \<open>
  The consistency of the shared status: the four subtype counters add up to the
  total. \<open>status_consistent\<close> is the equality in the counters' own 32-bit arithmetic,
  \<open>status_sum\<close> the sum of the four counters as a natural number.
\<close>

definition status_consistent :: "AutoDiscovery \<Rightarrow> bool" where
  "status_consistent ad =
     (ups (m_statusDiscovery ad) + epdu (m_statusDiscovery ad) + sts (m_statusDiscovery ad)
        + sensors (m_statusDiscovery ad) = discovered (m_statusDiscovery ad))"

definition status_sum :: "AutoDiscovery \<Rightarrow> nat" where
  "status_sum ad =
     unat (ups (m_statusDiscovery ad)) + unat (epdu (m_statusDiscovery ad))
       + unat (sts (m_statusDiscovery ad)) + unat (sensors (m_statusDiscovery ad))"

definition status_exact :: "nat \<Rightarrow> AutoDiscovery \<Rightarrow> bool" where
  "status_exact n ad =
     (status_sum ad = unat (discovered (m_statusDiscovery ad))
      \<and> unat (discovered (m_statusDiscovery ad)) \<le> n)"

text \<open>
  The operations that write the shared status. Each one holds \<^verbatim>\<open>m_mutex\<close> from its
  first write to its last, so the states another thread can read are the states
  between two operations: a run of the orchestrator and its tasks is a sequence of
  them, in the order in which they took the lock.
\<close>

datatype StatusOp =
    OpInit
  | OpReset
  | OpCounters string
  | OpProgress
  | OpScanCheck nat nat
  | OpStop
  | OpStart AddressParser ScanIn

fun apply_op :: "AutoDiscovery \<Rightarrow> StatusOp \<Rightarrow> AutoDiscovery" where
  "apply_op ad OpInit = statusDiscoveryInit ad"
| "apply_op ad OpReset = statusDiscoveryReset ad"
| "apply_op ad (OpCounters deviceSubType) = updateStatusDiscoveryCounters deviceSubType ad"
| "apply_op ad OpProgress = updateStatusDiscoveryProgress ad"
| "apply_op ad (OpScanCheck pending active) = snd (scanCheck pending active ad)"
| "apply_op ad OpStop = snd (stop ad)"
| "apply_op ad (OpStart env inp) = snd (start env inp ad)"

text \<open>The writes among the calls of a probe, and the point where the write loop starts.\<close>

fun is_Write :: "IoEvent \<Rightarrow> bool" where
  "is_Write (Write k) = True"
| "is_Write e = False"

definition snmp_ready :: "Network \<Rightarrow> string \<Rightarrow> nat \<Rightarrow> bool" where
  "snmp_ready env a p =
     (getaddrinfo env (c_str a) p = 0 \<and> fst (socket env a p) \<noteq> - 1
      \<and> fst (timeoutConnect env a p) = Inr ())"

text \<open>
  Concrete inputs: an orchestrator as constructed, an address parser that expands a
  range to itself, requests with no address at all, a request for one address, a
  sequence of status operations, a network where the host answers the ping, refuses
  both HTTP probes and accepts every datagram, and a probe request that names a
  filter.
\<close>

definition AutoDiscovery_new :: AutoDiscovery where
  "AutoDiscovery_new =
     \<lparr>m_params =
        \<lparr>links = [],
         discovery = \<lparr>discovery_type = OTHER, ips = [], scans = [], protocols = [],
                      documents = []\<rparr>,
         aux = \<lparr>parent = [], priority = 0\<rparr>\<rparr>,
      m_defaultValuesLinks = [],
      m_listIpAddress = [],
      m_listIpAddressNb = 0,
      m_listIpAddressCount = 0,
      m_poolScan = \<lparr>pushed = [], stopped = False\<rparr>,
      m_statusDiscovery =
        \<lparr>state = UNKNOWN, ups = 0, epdu = 0, sts = 0, sensors = 0, discovered = 0,
         progress = 0\<rparr>,
      scanCheckThreads = 0\<rparr>"

definition example_parser :: AddressParser where
  "example_parser = \<lparr>getRangeIp = (\<lambda>r. Inr [r]), getLocalRangeIp = Inr []\<rparr>"

definition empty_request :: "DiscoveryType \<Rightarrow> ScanIn" where
  "empty_request t =
     \<lparr>links = [],
      discovery = \<lparr>discovery_type = t, ips = [], scans = [], protocols = [], documents = []\<rparr>,
      aux = \<lparr>parent = ''0'', priority = 3\<rparr>\<rparr>"

definition example_request :: ScanIn where
  "example_request =
     \<lparr>links = [],
      discovery = \<lparr>discovery_type = IP, ips = [''10.0.0.1''], scans = [], protocols = [],
                   documents = [''c1'', ''c2'']\<rparr>,
      aux = \<lparr>parent = ''0'', priority = 3\<rparr>\<rparr>"

definition example_ops :: "StatusOp list" where
  "example_ops =
     [OpStart example_parser example_request, OpCounters ''ups'', OpCounters ''sensor'',
      OpProgress, OpScanCheck 0 0]"

definition example_network :: Network where
  "example_network =
     \<lparr>ping_available = (\<lambda>a. True),
      xml_get_product = (\<lambda>a p path. Inl ''connection refused''),
      xml_get_properties = (\<lambda>a p path. Inl ''connection refused''),
      neon_get = (\<lambda>a p path. Inl ''connection refused''),
      yaml_device_type = (\<lambda>content. Inl ''bad conversion''),
      getaddrinfo = (\<lambda>a p. 0),
      gai_strerror = (\<lambda>e. ''gai error''),
      socket = (\<lambda>a p. (3, 0)),
      connect = (\<lambda>a p. (0, 0)),
      poll = (\<lambda>a p. (1, 0)),
      getsockopt = (\<lambda>a p. (0, 0)),
      strerror = (\<lambda>e. ''error''),
      sock_write = (\<lambda>a p k. 1),
      available_default = No\<rparr>"

definition example_in :: ProtocolsIn where
  "example_in = \<lparr>address = ''10.0.0.1'', in_protocols = [''nut_snmp'']\<rparr>"

text \<open>
  The translation of one input map as the code performs it: the rule of the
  specification, for the maps whose naming key is not the empty string.
\<close>

definition ext_attribute :: "StringMap \<Rightarrow> (string \<times> MapExtObj) option" where
  "ext_attribute m =
     (if ext_keys m = [] \<or> fst (last (ext_keys m)) = [] then None
      else Some (fst (last (ext_keys m)),
                 MapExtObj_default\<lparr>ext_value := snd (last (ext_keys m)),
                                   ext_readOnly := ext_is_read_only m\<rparr>))"


text \<open>
  More concrete inputs: a resolver that knows one address, an enumeration that
  succeeds with no candidate for the first credential and with one UPS for any other,
  an orchestrator holding the request for one address with two credentials, and one
  whose request also restricts the protocols to nut_snmp; and the same collaborators
  with an enumeration that throws.
\<close>

definition example_resolver :: Resolver where
  "example_resolver =
     \<lparr>inet_aton = (\<lambda>s. if s = ''10.0.0.1'' then Some 167772161 else None),
      getnameinfo = (\<lambda>a. if a = 167772161 then Some (''ups1.example.com'' @ [CHR 0x00])
                          else None)\<rparr>"

definition example_asset :: AssetOut where
  "example_asset =
     \<lparr>asset_type = ''device'', asset_subtype = ''ups'',
      asset_ext = [[(''model'', ''5PX''), (''read_only'', ''true'')]], asset_sensors = []\<rparr>"

definition example_scan_env :: ScanEnv where
  "example_scan_env =
     \<lparr>getProtocols = (\<lambda>i. Returned [\<lparr>protocol = ''nut_snmp'', port = 161, reachable = True,
                                       available = Maybe\<rparr>]),
      getAssets = (\<lambda>a. if credentialId a = ''c1'' then Returned []
                       else Returned [example_asset]),
      create_run = (\<lambda>r. Returned ''ups-1''),
      isDeviceCentricView = True,
      resolver = example_resolver\<rparr>"

definition example_orchestrator :: AutoDiscovery where
  "example_orchestrator = AutoDiscovery_new\<lparr>m_params := example_request\<rparr>"

definition example_throwing_env :: ScanEnv where
  "example_throwing_env = example_scan_env\<lparr>getAssets := (\<lambda>a. Thrown ''timeout'')\<rparr>"


section \<open>The shared status\<close>

lemma start_dispatch_status: "m_statusDiscovery (start_dispatch xs ad) = m_statusDiscovery ad"
  by (induction xs arbitrary: ad) simp_all

lemma readConfig_status: "m_statusDiscovery (snd (readConfig env inp ad)) = m_statusDiscovery ad"
  by (simp add: readConfig_def Let_def)

lemma readConfig_ok: "fst (readConfig env inp ad) = Inr ()"
  by (simp add: readConfig_def Let_def)

lemma start_status:
  "m_statusDiscovery (snd (start env inp ad)) =
     (if state (m_statusDiscovery ad) \<noteq> IN_PROGRESS
      then m_statusDiscovery (statusDiscoveryReset ad) else m_statusDiscovery ad)"
proof (cases "readConfig env inp (resetPoolScan (statusDiscoveryReset (ad\<lparr>m_params := inp\<rparr>)))")
  case (Pair res ad2)
  have s: "m_statusDiscovery ad2 = m_statusDiscovery (statusDiscoveryReset ad)"
    using readConfig_status [of env inp "resetPoolScan (statusDiscoveryReset (ad\<lparr>m_params := inp\<rparr>))"] Pair
    by (simp add: resetPoolScan_def statusDiscoveryReset_def)
  have r: "res = Inr ()"
    using readConfig_ok [of env inp "resetPoolScan (statusDiscoveryReset (ad\<lparr>m_params := inp\<rparr>))"] Pair
    by simp
  show ?thesis
    using Pair s r
    by (simp add: start_def Let_def start_dispatch_status startThreadScanCheck_def)
qed

lemma counters_consistent:
  "status_consistent ad \<Longrightarrow> status_consistent (updateStatusDiscoveryCounters t ad)"
  unfolding status_consistent_def updateStatusDiscoveryCounters_def Let_def
  by (auto simp: eq_commute [of _ "discovered _"])

lemma apply_op_consistent:
  "status_consistent ad \<Longrightarrow> status_consistent (apply_op ad op)"
proof (cases op)
  case (OpCounters t)
  then show "status_consistent ad \<Longrightarrow> ?thesis" by (simp add: counters_consistent)
next
  case (OpStart env inp)
  then show "status_consistent ad \<Longrightarrow> ?thesis"
    by (simp add: status_consistent_def start_status statusDiscoveryReset_def)
qed (simp_all add: status_consistent_def statusDiscoveryInit_def statusDiscoveryReset_def
       updateStatusDiscoveryProgress_def Let_def scanCheck_def stop_def stopPoolScan_def)

lemma foldl_consistent:
  "status_consistent ad \<Longrightarrow> status_consistent (foldl apply_op ad ops)"
  by (induction ops arbitrary: ad) (simp_all add: apply_op_consistent)

lemma unat_inc32: "unat (w :: 32 word) < 4294967295 \<Longrightarrow> unat (w + 1) = unat w + 1"
  by (simp add: unat_word_ariths)

lemma counters_exact:
  assumes "status_exact n ad" "Suc n < 2 ^ 32"
  shows "status_exact (Suc n) (updateStatusDiscoveryCounters t ad)"
proof -
  let ?st = "m_statusDiscovery ad"
  from assms have d: "unat (discovered ?st) < 4294967295" and
    e: "status_sum ad = unat (discovered ?st)" and le: "unat (discovered ?st) \<le> n"
    by (simp_all add: status_exact_def)
  from e d have b: "unat (ups ?st) < 4294967295" "unat (epdu ?st) < 4294967295"
    "unat (sts ?st) < 4294967295" "unat (sensors ?st) < 4294967295"
    by (simp_all add: status_sum_def)
  show ?thesis
    using e le b d
    by (simp add: status_exact_def status_sum_def updateStatusDiscoveryCounters_def Let_def unat_inc32)
qed

lemma apply_op_exact:
  assumes "status_exact n ad" "Suc n < 2 ^ 32"
  shows "status_exact (Suc n) (apply_op ad op)"
proof (cases op)
  case (OpCounters t)
  then show ?thesis using counters_exact [OF assms] by simp
next
  case (OpStart env inp)
  then show ?thesis using assms
    by (simp add: status_exact_def status_sum_def start_status statusDiscoveryReset_def)
qed (use assms in \<open>simp_all add: status_exact_def status_sum_def statusDiscoveryInit_def statusDiscoveryReset_def
       updateStatusDiscoveryProgress_def Let_def scanCheck_def stop_def stopPoolScan_def\<close>)

lemma foldl_exact:
  "status_exact n ad \<Longrightarrow> n + length ops < 2 ^ 32 \<Longrightarrow> status_exact (n + length ops) (foldl apply_op ad ops)"
proof (induction ops arbitrary: ad n)
  case Nil
  then show ?case by simp
next
  case (Cons op ops)
  have "status_exact (Suc n) (apply_op ad op)"
    using Cons.prems by (intro apply_op_exact) simp_all
  from Cons.IH [OF this] Cons.prems(2) show ?case by simp
qed

text \<open>
  Claim C5. Every status-writing operation (init, reset, counter update, progress
  update, the watchdog's check, stop and start) keeps the equality of the sum of the
  four subtype counters and the total discovered counter. So from the initialised
  status on, after every sequence of such operations, the four counters add up to the
  total: in the counters' 32-bit arithmetic always, and as natural numbers as long as
  fewer than \<open>2 ^ 32\<close> operations have run.
\<close>

theorem C5_counters_sum_to_discovered:
  "(status_consistent ad \<longrightarrow> status_consistent (apply_op ad op)) \<and>
   status_consistent (foldl apply_op (statusDiscoveryInit ad) ops) \<and>
   (length ops < 2 ^ 32 \<longrightarrow>
      status_sum (foldl apply_op (statusDiscoveryInit ad) ops)
        = unat (discovered (m_statusDiscovery (foldl apply_op (statusDiscoveryInit ad) ops))))"
proof -
  have "status_consistent (statusDiscoveryInit ad)"
    by (simp add: status_consistent_def statusDiscoveryInit_def)
  then have a: "status_consistent (foldl apply_op (statusDiscoveryInit ad) ops)"
    by (rule foldl_consistent)
  have "status_exact 0 (statusDiscoveryInit ad)"
    by (simp add: status_exact_def status_sum_def statusDiscoveryInit_def)
  from foldl_exact [OF this, of ops] have
    "length ops < 2 ^ 32 \<Longrightarrow>
       status_exact (length ops) (foldl apply_op (statusDiscoveryInit ad) ops)"
    by simp
  with a show ?thesis by (simp add: status_exact_def apply_op_consistent)
qed

theorem C5_counters_sum_to_discovered_witness:
  "status_consistent AutoDiscovery_new \<and>
   status_consistent (apply_op AutoDiscovery_new (OpCounters ''epdu'')) \<and>
   length example_ops < (2::nat) ^ 32 \<and>
   status_consistent (foldl apply_op (statusDiscoveryInit AutoDiscovery_new) example_ops) \<and>
   status_sum (foldl apply_op (statusDiscoveryInit AutoDiscovery_new) example_ops) = 2 \<and>
   discovered (m_statusDiscovery
     (foldl apply_op (statusDiscoveryInit AutoDiscovery_new) example_ops)) = 2"
  using C5_counters_sum_to_discovered [of AutoDiscovery_new "OpCounters ''epdu''" example_ops]
  by (simp add: example_ops_def status_sum_def start_status statusDiscoveryInit_def
      statusDiscoveryReset_def AutoDiscovery_new_def updateStatusDiscoveryCounters_def
      updateStatusDiscoveryProgress_def scanCheck_def Let_def status_consistent_def)

text \<open>
  Claim C10. For a device subtype other than "ups", "epdu", "sts" and "sensor", the
  counter update leaves the whole orchestrator, and so every field of the status, as
  it was.
\<close>

theorem C10_unknown_subtype_changes_nothing:
  "deviceSubType \<notin> {''ups'', ''epdu'', ''sts'', ''sensor''} \<Longrightarrow>
     updateStatusDiscoveryCounters deviceSubType ad = ad"
  by (simp add: updateStatusDiscoveryCounters_def)

theorem C10_unknown_subtype_changes_nothing_witness:
  "''rackcontroller'' \<notin> {''ups'', ''epdu'', ''sts'', ''sensor''} \<and>
   updateStatusDiscoveryCounters ''rackcontroller'' AutoDiscovery_new = AutoDiscovery_new"
  using C10_unknown_subtype_changes_nothing [of "''rackcontroller''" AutoDiscovery_new]
  by simp

text \<open>
  Claim C4. With three addresses, when the second task completes (one address
  remains), the code publishes 66: the quotient \<open>200 / 3\<close> is an integer division,
  which has dropped the fraction before \<^verbatim>\<open>std::round\<close> is applied. The claimed value,
  the exact quotient rounded, is 67.
\<close>

theorem C4_progress_is_truncated:
  "progress (m_statusDiscovery (updateStatusDiscoveryProgress
      (AutoDiscovery_new\<lparr>m_listIpAddressNb := 3, m_listIpAddressCount := 2\<rparr>))) = 66 \<and>
   progress_spec 3 1 = 67"
  by (simp add: updateStatusDiscoveryProgress_def round_to_uint32_def progress_spec_def
      round_def AutoDiscovery_new_def)

text \<open>
  Claim C1. A request of type IP, MULTI or FULL with no address and no range, and a
  request of any other type than the four known ones, is accepted: \<^verbatim>\<open>start\<close> returns
  success, having pushed no task. The error that \<^verbatim>\<open>readConfig\<close> builds is never
  returned.
\<close>

theorem C1_start_accepts_empty_request:
  "fst (start example_parser (empty_request IP) AutoDiscovery_new) = Inr () \<and>
   fst (start example_parser (empty_request MULTI) AutoDiscovery_new) = Inr () \<and>
   fst (start example_parser (empty_request FULL) AutoDiscovery_new) = Inr () \<and>
   fst (start example_parser (empty_request OTHER) AutoDiscovery_new) = Inr () \<and>
   pushed (m_poolScan (snd (start example_parser (empty_request IP) AutoDiscovery_new))) = []"
  by (simp add: start_def readConfig_def empty_request_def AutoDiscovery_new_def Let_def
      statusDiscoveryReset_def resetPoolScan_def startThreadScanCheck_def unexpected_def)

section \<open>The protocol probe\<close>

lemma writes_ok:
  "fst (trySnmp_writes wr i) = Inr () \<longleftrightarrow> (\<forall>k. i \<le> k \<and> k < 20 \<longrightarrow> wr k \<noteq> - 1)"
proof (induction wr i rule: trySnmp_writes.induct)
  case (1 wr i)
  show ?case
  proof (cases "i < 20")
    case False
    then show ?thesis by (subst trySnmp_writes.simps) simp
  next
    case True
    show ?thesis
    proof (cases "wr i = - 1")
      case True
      with \<open>i < 20\<close> show ?thesis by (subst trySnmp_writes.simps) auto
    next
      case False
      have "(\<forall>k. i \<le> k \<and> k < 20 \<longrightarrow> wr k \<noteq> - 1) \<longleftrightarrow> (\<forall>k. i + 1 \<le> k \<and> k < 20 \<longrightarrow> wr k \<noteq> - 1)"
      proof (intro iffI allI impI)
        fix k assume a: "\<forall>k. i \<le> k \<and> k < 20 \<longrightarrow> wr k \<noteq> - 1" and "i + 1 \<le> k \<and> k < 20"
        then show "wr k \<noteq> - 1" by simp
      next
        fix k assume a: "\<forall>k. i + 1 \<le> k \<and> k < 20 \<longrightarrow> wr k \<noteq> - 1" and b: "i \<le> k \<and> k < 20"
        show "wr k \<noteq> - 1"
        proof (cases "k = i")
          case True
          with False show ?thesis by simp
        next
          case False
          with b have "i + 1 \<le> k \<and> k < 20" by simp
          with a show ?thesis by blast
        qed
      qed
      with 1 [OF True False] True False show ?thesis
        by (subst trySnmp_writes.simps) (simp add: case_prod_beta)
    qed
  qed
qed

lemma writes_events:
  "e \<in> set (snd (trySnmp_writes wr i)) \<longleftrightarrow>
     (\<exists>k. e = Write k \<and> i \<le> k \<and> k < 20 \<and> (\<forall>j. i \<le> j \<and> j < k \<longrightarrow> wr j \<noteq> - 1))"
proof (induction wr i arbitrary: e rule: trySnmp_writes.induct)
  case (1 wr i)
  show ?case
  proof (cases "i < 20")
    case False
    then show ?thesis by (subst trySnmp_writes.simps) simp
  next
    case True
    show ?thesis
    proof (cases "wr i = - 1")
      case True
      with \<open>i < 20\<close> show ?thesis
        by (subst trySnmp_writes.simps) (auto simp: dest: le_neq_implies_less)
    next
      case False
      have "e \<in> set (snd (trySnmp_writes wr i)) \<longleftrightarrow> e = Write i \<or> e \<in> set (snd (trySnmp_writes wr (i + 1)))"
        using True False by (subst trySnmp_writes.simps) (simp add: case_prod_beta)
      also have "\<dots> \<longleftrightarrow> e = Write i \<or> (\<exists>k. e = Write k \<and> i + 1 \<le> k \<and> k < 20 \<and> (\<forall>j. i + 1 \<le> j \<and> j < k \<longrightarrow> wr j \<noteq> - 1))"
        using 1 [OF True False] by simp
      also have "\<dots> \<longleftrightarrow> (\<exists>k. e = Write k \<and> i \<le> k \<and> k < 20 \<and> (\<forall>j. i \<le> j \<and> j < k \<longrightarrow> wr j \<noteq> - 1))"
        (is "?L \<longleftrightarrow> ?R")
      proof
        assume ?L
        then show ?R
        proof
          assume "e = Write i"
          with True show ?R by auto
        next
          assume "\<exists>k. e = Write k \<and> i + 1 \<le> k \<and> k < 20 \<and> (\<forall>j. i + 1 \<le> j \<and> j < k \<longrightarrow> wr j \<noteq> - 1)"
          then obtain k where k: "e = Write k" "i + 1 \<le> k" "k < 20"
            "\<forall>j. i + 1 \<le> j \<and> j < k \<longrightarrow> wr j \<noteq> - 1" by blast
          have "\<forall>j. i \<le> j \<and> j < k \<longrightarrow> wr j \<noteq> - 1"
          proof (intro allI impI)
            fix j assume "i \<le> j \<and> j < k"
            then show "wr j \<noteq> - 1" using k(4) False by (cases "j = i") auto
          qed
          with k show ?R by auto
        qed
      next
        assume ?R
        then obtain k where k: "e = Write k" "i \<le> k" "k < 20"
            "\<forall>j. i \<le> j \<and> j < k \<longrightarrow> wr j \<noteq> - 1" by blast
        show ?L
        proof (cases "k = i")
          case True
          with k show ?thesis by simp
        next
          case False
          with k have "i + 1 \<le> k" by simp
          with k show ?thesis by auto
        qed
      qed
      finally show ?thesis .
    qed
  qed
qed

lemma writes_length: "length (snd (trySnmp_writes wr i)) \<le> 20 - i"
proof (induction wr i rule: trySnmp_writes.induct)
  case (1 wr i)
  show ?case
  proof (cases "i < 20 \<and> wr i \<noteq> - 1")
    case True
    with 1 have "length (snd (trySnmp_writes wr (i + 1))) \<le> 20 - (i + 1)" by simp
    with True have "Suc (length (snd (trySnmp_writes wr (i + 1)))) \<le> 20 - i" by arith
    with True show ?thesis
      by (subst trySnmp_writes.simps) (simp add: case_prod_beta)
  next
    case False
    then show ?thesis by (subst trySnmp_writes.simps) auto
  qed
qed


lemma timeoutConnect_events: "Write k \<notin> set (snd (snd (timeoutConnect env a p)))"
  by (simp add: timeoutConnect_def split: prod.splits)

lemma timeoutConnect_no_write: "filter is_Write (snd (snd (timeoutConnect env a p))) = []"
  by (simp add: timeoutConnect_def split: prod.splits)

lemma writes_all_write: "filter is_Write (snd (trySnmp_writes wr i)) = snd (trySnmp_writes wr i)"
proof -
  have "\<forall>e \<in> set (snd (trySnmp_writes wr i)). is_Write e"
    using writes_events [of _ wr i] by auto
  then show ?thesis by simp
qed

lemma trySnmp_result:
  "fst (trySnmp env inp p) = Inr () \<longleftrightarrow>
     snmp_ready env (address inp) p \<and> (\<forall>k<20. sock_write env (address inp) p k \<noteq> - 1)"
proof (cases "snmp_ready env (address inp) p")
  case True
  then have "fst (trySnmp env inp p) = fst (trySnmp_writes (sock_write env (address inp) p) 0)"
    by (auto simp: trySnmp_def snmp_ready_def Let_def split: prod.splits sum.splits)
  with True show ?thesis by (simp add: writes_ok)
next
  case False
  then have "isl (fst (trySnmp env inp p))"
    by (auto simp: trySnmp_def snmp_ready_def Let_def split: prod.splits sum.splits)
  with False show ?thesis by auto
qed

lemma trySnmp_write_events:
  "Write k \<in> set (snd (trySnmp env inp p)) \<longleftrightarrow>
     snmp_ready env (address inp) p \<and> k < 20 \<and> (\<forall>j<k. sock_write env (address inp) p j \<noteq> - 1)"
proof (cases "snmp_ready env (address inp) p")
  case True
  then have "Write k \<in> set (snd (trySnmp env inp p))
     \<longleftrightarrow> Write k \<in> set (snd (trySnmp_writes (sock_write env (address inp) p) 0))"
    using timeoutConnect_events [of k env "address inp" p]
    by (auto simp: trySnmp_def snmp_ready_def Let_def split: prod.splits sum.splits)
  with True show ?thesis by (simp add: writes_events)
next
  case False
  then have "Write k \<notin> set (snd (trySnmp env inp p))"
    using timeoutConnect_events [of k env "address inp" p]
    by (auto simp: trySnmp_def snmp_ready_def Let_def split: prod.splits sum.splits)
  with False show ?thesis by simp
qed

lemma trySnmp_write_count: "length (filter is_Write (snd (trySnmp env inp p))) \<le> 20"
proof -
  have "filter is_Write (snd (trySnmp env inp p)) = []
      \<or> filter is_Write (snd (trySnmp env inp p))
           = filter is_Write (snd (trySnmp_writes (sock_write env (address inp) p) 0))"
    using timeoutConnect_no_write [of env "address inp" p]
    by (auto simp: trySnmp_def Let_def split: prod.splits sum.splits)
  then show ?thesis
    using writes_length [of "sock_write env (address inp) p" 0]
    by (auto simp: writes_all_write)
qed

lemma tryPowercom_events:
  "filter is_Write (snd (tryPowercom env inp p)) = [] \<and>
   HttpGet ''https'' (address inp) p ''etn/v1/comm/services/powerdistributions1''
     \<in> set (snd (tryPowercom env inp p))"
  by (simp add: tryPowercom_def Let_def split: sum.splits)

lemma tryXmlPdc_events:
  "filter is_Write (snd (tryXmlPdc env inp p)) = [] \<and>
   HttpGet ''http'' (address inp) p ''product.xml'' \<in> set (snd (tryXmlPdc env inp p))"
  by (simp add: tryXmlPdc_def split: sum.splits)

lemma trySnmp_first_event: "GetAddrInfo (address inp) p \<in> set (snd (trySnmp env inp p))"
  by (simp add: trySnmp_def Let_def split: prod.splits sum.splits)

lemma run_try_Powercom:
  "run_try env inp (Powercom, s, p) =
     (\<lparr>protocol = s, port = p, reachable = (fst (tryPowercom env inp p) = Inr ()),
       available = (if fst (tryPowercom env inp p) = Inr () then Yes else No)\<rparr>,
      snd (tryPowercom env inp p))"
  by (cases "tryPowercom env inp p") (auto simp: Return_default_def Let_def split: sum.splits)

lemma run_try_Xml:
  "run_try env inp (Xml, s, p) =
     (\<lparr>protocol = s, port = p, reachable = (fst (tryXmlPdc env inp p) = Inr ()),
       available = (if fst (tryXmlPdc env inp p) = Inr () then Yes else No)\<rparr>,
      snd (tryXmlPdc env inp p))"
  by (cases "tryXmlPdc env inp p") (auto simp: Return_default_def Let_def split: sum.splits)

lemma run_try_Snmp:
  "run_try env inp (Snmp, s, p) =
     (\<lparr>protocol = s, port = p, reachable = (fst (trySnmp env inp p) = Inr ()),
       available = (if fst (trySnmp env inp p) = Inr () then Maybe else No)\<rparr>,
      snd (trySnmp env inp p))"
  by (cases "trySnmp env inp p") (auto simp: Return_default_def Let_def split: sum.splits)

lemma run_live:
  assumes "address inp \<noteq> ''__fake__''" and "ping_available env (address inp)"
  shows "run env inp out =
     (Inr (out @ [fst (run_try env inp (Powercom, ''nut_powercom'', 443)),
                  fst (run_try env inp (Xml, ''nut_xml_pdc'', 80)),
                  fst (run_try env inp (Snmp, ''nut_snmp'', 161))]),
      Ping (address inp) # snd (run_try env inp (Powercom, ''nut_powercom'', 443))
        @ snd (run_try env inp (Xml, ''nut_xml_pdc'', 80))
        @ snd (run_try env inp (Snmp, ''nut_snmp'', 161)))"
  using assms by (simp add: run_def tries_def case_prod_beta del: run_try.simps)

lemma example_run:
  "run example_network example_in [] =
     (Inr [\<lparr>protocol = ''nut_powercom'', port = 443, reachable = False, available = No\<rparr>,
           \<lparr>protocol = ''nut_xml_pdc'', port = 80, reachable = False, available = No\<rparr>,
           \<lparr>protocol = ''nut_snmp'', port = 161, reachable = True, available = Maybe\<rparr>],
      [Ping ''10.0.0.1'',
       HttpGet ''https'' ''10.0.0.1'' 443 ''etn/v1/comm/services/powerdistributions1'',
       HttpGet ''http'' ''10.0.0.1'' 80 ''product.xml'',
       GetAddrInfo ''10.0.0.1'' 161, Socket, Connect] @ map Write [0..<20])"
  by (simp add: run_def tries_def example_network_def example_in_def Return_default_def
      tryPowercom_def tryXmlPdc_def trySnmp_def timeoutConnect_def c_str_def
      trySnmp_writes.simps upt_rec)

text \<open>
  Claim C6. For a live address other than the sentinel, the probe reports three
  protocols and the third is nut_snmp on port 161. The probe makes at most 20 writes.
  The protocol is reported reachable exactly when each of the 20 writes has been
  made and none has returned \<open>-1\<close>; a write that returns \<open>-1\<close> makes it not
  reachable; and its availability is Maybe when reachable and No when not, never Yes.
\<close>

theorem C6_snmp_probe:
  assumes "address inp \<noteq> ''__fake__''" and "ping_available env (address inp)"
  shows "\<exists>r1 r2 r3 io. run env inp out = (Inr (out @ [r1, r2, r3]), io) \<and>
     protocol r3 = ''nut_snmp'' \<and> port r3 = 161 \<and>
     length (filter is_Write io) \<le> 20 \<and>
     (reachable r3 \<longleftrightarrow>
        (\<forall>i<20. Write i \<in> set io \<and> sock_write env (address inp) 161 i \<noteq> - 1)) \<and>
     ((\<exists>i. Write i \<in> set io \<and> sock_write env (address inp) 161 i = - 1) \<longrightarrow> \<not> reachable r3) \<and>
     available r3 = (if reachable r3 then Maybe else No)"
proof -
  let ?a = "address inp"
  let ?wr = "sock_write env ?a 161"
  let ?io = "Ping ?a # snd (tryPowercom env inp 443) @ snd (tryXmlPdc env inp 80)
               @ snd (trySnmp env inp 161)"
  let ?ok = "fst (trySnmp env inp 161) = Inr ()"
  let ?r3 = "\<lparr>protocol = ''nut_snmp'', port = 161, reachable = ?ok,
              available = (if ?ok then Maybe else No)\<rparr>"
  have no1: "Write k \<notin> set (snd (tryPowercom env inp 443))" for k
  proof
    assume "Write k \<in> set (snd (tryPowercom env inp 443))"
    then have "Write k \<in> set (filter is_Write (snd (tryPowercom env inp 443)))" by simp
    then show False using tryPowercom_events [of env inp 443] by simp
  qed
  have no2: "Write k \<notin> set (snd (tryXmlPdc env inp 80))" for k
  proof
    assume "Write k \<in> set (snd (tryXmlPdc env inp 80))"
    then have "Write k \<in> set (filter is_Write (snd (tryXmlPdc env inp 80)))" by simp
    then show False using tryXmlPdc_events [of env inp 80] by simp
  qed
  have mem: "Write k \<in> set ?io \<longleftrightarrow>
      snmp_ready env ?a 161 \<and> k < 20 \<and> (\<forall>j<k. ?wr j \<noteq> - 1)" for k
    using no1 [of k] no2 [of k] by (simp add: trySnmp_write_events)
  have r: "run env inp out =
     (Inr (out @ [fst (run_try env inp (Powercom, ''nut_powercom'', 443)),
                  fst (run_try env inp (Xml, ''nut_xml_pdc'', 80)), ?r3]), ?io)"
    using run_live [OF assms, of out]
    by (simp only: run_try_Powercom run_try_Xml run_try_Snmp fst_conv snd_conv)
  have len: "length (filter is_Write ?io) \<le> 20"
    using tryPowercom_events [of env inp 443] tryXmlPdc_events [of env inp 80]
      trySnmp_write_count [of env inp 161] by simp
  have a: "?ok \<longleftrightarrow> (\<forall>i<20. Write i \<in> set ?io \<and> ?wr i \<noteq> - 1)"
  proof
    assume ?ok
    then have "snmp_ready env ?a 161" and all: "\<forall>k<20. ?wr k \<noteq> - 1"
      by (simp_all add: trySnmp_result)
    then show "\<forall>i<20. Write i \<in> set ?io \<and> ?wr i \<noteq> - 1"
      unfolding mem by auto
  next
    assume h: "\<forall>i<20. Write i \<in> set ?io \<and> ?wr i \<noteq> - 1"
    then have "Write 0 \<in> set ?io" by simp
    then have "snmp_ready env ?a 161" unfolding mem by simp
    with h show ?ok by (simp add: trySnmp_result)
  qed
  have b: "(\<exists>i. Write i \<in> set ?io \<and> ?wr i = - 1) \<longrightarrow> \<not> ?ok"
    unfolding mem by (auto simp: trySnmp_result)
  show ?thesis
    using r len a b by (intro exI [of _ "fst (run_try env inp (Powercom, ''nut_powercom'', 443))"]
      exI [of _ "fst (run_try env inp (Xml, ''nut_xml_pdc'', 80))"] exI [of _ ?r3] exI [of _ ?io]) simp
qed

theorem C6_snmp_probe_witness:
  "address example_in \<noteq> ''__fake__'' \<and> ping_available example_network (address example_in) \<and>
   (\<exists>r1 r2 r3 io. run example_network example_in [] = (Inr ([] @ [r1, r2, r3]), io) \<and>
     protocol r3 = ''nut_snmp'' \<and> port r3 = 161 \<and>
     length (filter is_Write io) \<le> 20 \<and>
     (reachable r3 \<longleftrightarrow>
        (\<forall>i<20. Write i \<in> set io \<and> sock_write example_network (address example_in) 161 i \<noteq> - 1)) \<and>
     ((\<exists>i. Write i \<in> set io \<and> sock_write example_network (address example_in) 161 i = - 1)
        \<longrightarrow> \<not> reachable r3) \<and>
     available r3 = (if reachable r3 then Maybe else No)) \<and>
   fst (run example_network example_in []) =
     Inr [\<lparr>protocol = ''nut_powercom'', port = 443, reachable = False, available = No\<rparr>,
          \<lparr>protocol = ''nut_xml_pdc'', port = 80, reachable = False, available = No\<rparr>,
          \<lparr>protocol = ''nut_snmp'', port = 161, reachable = True, available = Maybe\<rparr>]"
proof -
  have h1: "address example_in \<noteq> ''__fake__''"
    by (simp add: example_in_def)
  have h2: "ping_available example_network (address example_in)"
    by (simp add: example_network_def)
  from C6_snmp_probe [OF h1 h2, of "[]"] h1 h2 example_run show ?thesis
    by (intro conjI) simp_all
qed

text \<open>
  Claim C7. For the sentinel address the probe appends exactly two results, nut_snmp
  on port 1234, reachable, and nut_xml_pdc on port 4321, not reachable, and makes no
  call at all to the network, the liveness check included.
\<close>

theorem C7_sentinel_address:
  "run env \<lparr>address = ''__fake__'', in_protocols = ps\<rparr> out =
     (Inr (out @ [\<lparr>protocol = ''nut_snmp'', port = 1234, reachable = True,
                    available = available_default env\<rparr>,
                  \<lparr>protocol = ''nut_xml_pdc'', port = 4321, reachable = False,
                    available = available_default env\<rparr>]), [])"
  by (simp add: run_def Return_default_def)

lemma try_address:
  assumes "address inp = address inp'"
  shows "tryPowercom env inp p = tryPowercom env inp' p"
    and "tryXmlPdc env inp p = tryXmlPdc env inp' p"
    and "trySnmp env inp p = trySnmp env inp' p"
  unfolding tryPowercom_def tryXmlPdc_def trySnmp_def assms by (rule refl)+

lemma run_try_address:
  assumes "address inp = address inp'"
  shows "run_try env inp t = run_try env inp' t"
proof -
  obtain ty s p where t: "t = (ty, s, p)" by (cases t)
  show ?thesis
    unfolding t by (cases ty) (simp_all only: run_try.simps try_address [OF assms])
qed

lemma run_tries_address:
  "address inp = address inp' \<Longrightarrow> run_tries env inp ts out = run_tries env inp' ts out"
proof (induction ts arbitrary: out)
  case Nil
  then show ?case by simp
next
  case (Cons t ts)
  then show ?case by (simp add: run_try_address [OF Cons.prems, of env t])
qed

lemma run_address:
  "address inp = address inp' \<Longrightarrow> run env inp out = run env inp' out"
  by (simp add: run_def run_tries_address [of inp inp'])










section \<open>Extended attributes and host name\<close>

lemma updateExt_attributes_eq:
  "updateExt_attributes m (k0, obj0) =
     ((if ext_keys m = [] then k0 else fst (last (ext_keys m))),
      obj0\<lparr>ext_value := (if ext_keys m = [] then ext_value obj0 else snd (last (ext_keys m))),
           ext_readOnly := (if ext_flags m = [] then ext_readOnly obj0
                            else snd (last (ext_flags m)) = ''true'')\<rparr>)"
proof (induction m arbitrary: k0 obj0)
  case Nil
  then show ?case by (simp add: ext_keys_def ext_flags_def)
next
  case (Cons kv m)
  obtain key val where kv: "kv = (key, val)" by (cases kv)
  show ?case
    unfolding kv by (simp add: Cons.IH ext_keys_def ext_flags_def)
qed

lemma updateExt_attributes_default:
  "updateExt_attributes m ([], MapExtObj_default) =
     (case ext_attribute m of
        None \<Rightarrow> ([], snd (updateExt_attributes m ([], MapExtObj_default)))
      | Some kv \<Rightarrow> kv)"
  by (simp add: updateExt_attributes_eq ext_attribute_def MapExtObj_default_def
      ext_is_read_only_def)

lemma updateExt_eq:
  "updateExt extIn extOut = (Inr (), extOut @ List.map_filter ext_attribute extIn)"
proof (induction extIn arbitrary: extOut)
  case Nil
  then show ?case by simp
next
  case (Cons m extIn)
  show ?case
  proof (cases "ext_attribute m")
    case None
    then have "fst (updateExt_attributes m ([], MapExtObj_default)) = []"
      by (subst updateExt_attributes_default) simp
    with None show ?thesis
      by (simp add: Cons.IH case_prod_beta)
  next
    case (Some kv)
    then have e: "updateExt_attributes m ([], MapExtObj_default) = kv"
      by (subst updateExt_attributes_default) simp
    from Some have "fst kv \<noteq> []"
      by (auto simp: ext_attribute_def split: if_splits)
    with Some e show ?thesis
      by (simp add: Cons.IH case_prod_beta)
  qed
qed

text \<open>
  Claim C8, as stated, fails: a map whose only key is the empty string has a key
  other than \<^verbatim>\<open>read_only\<close>, and the rule of the specification gives it an attribute,
  but \<^verbatim>\<open>updateExt\<close> appends nothing for it.
\<close>

theorem C8_empty_key_counterexample:
  "snd (updateExt [[([], ''bar'')]] []) = [] \<and>
   ext_keys [([], ''bar'')] = [([], ''bar'')] \<and>
   ext_attribute_spec [([], ''bar'')]
     = Some ([], \<lparr>ext_value = ''bar'', ext_readOnly = False, ext_update = True\<rparr>)"
  by (simp add: ext_attribute_spec_def ext_keys_def ext_flags_def ext_is_read_only_def)

text \<open>
  Claim C8, amended. \<^verbatim>\<open>updateExt\<close> always succeeds and appends, for each input map
  in order, at most one attribute: a map whose last key other than \<^verbatim>\<open>read_only\<close> is
  not the empty string gives the attribute named by that key, with that key's value,
  read-only exactly when the map's \<^verbatim>\<open>read_only\<close> entry is \<^verbatim>\<open>"true"\<close>; a map with no
  key other than \<^verbatim>\<open>read_only\<close>, or whose last such key is empty, gives nothing. The
  example of the specification comes out as stated.
\<close>

theorem C8_updateExt_translation:
  "updateExt extIn extOut = (Inr (), extOut @ List.map_filter ext_attribute extIn) \<and>
   updateExt [[(''foo'', ''bar'')], [(''baz'', ''qux''), (''read_only'', ''true'')]] [] =
     (Inr (), [(''foo'', \<lparr>ext_value = ''bar'', ext_readOnly = False, ext_update = True\<rparr>),
               (''baz'', \<lparr>ext_value = ''qux'', ext_readOnly = True, ext_update = True\<rparr>)])"
proof
  show "updateExt extIn extOut = (Inr (), extOut @ List.map_filter ext_attribute extIn)"
    by (rule updateExt_eq)
next
  show "updateExt [[(''foo'', ''bar'')], [(''baz'', ''qux''), (''read_only'', ''true'')]] [] =
     (Inr (), [(''foo'', \<lparr>ext_value = ''bar'', ext_readOnly = False, ext_update = True\<rparr>),
               (''baz'', \<lparr>ext_value = ''qux'', ext_readOnly = True, ext_update = True\<rparr>)])"
    by (simp add: MapExtObj_default_def)
qed

lemma c_str_truncate:
  "c \<noteq> CHR 0x00 \<Longrightarrow>
   c_str (case strchr buf c of Some p \<Rightarrow> buf[p := CHR 0x00] | None \<Rightarrow> buf)
     = takeWhile (\<lambda>x. x \<noteq> c) (c_str buf)"
proof (induction buf)
  case Nil
  then show ?case by (simp add: c_str_def strchr_def)
next
  case (Cons x xs)
  show ?case
  proof (cases "x = CHR 0x00")
    case True
    then show ?thesis by (simp add: c_str_def strchr_def)
  next
    case nz: False
    show ?thesis
    proof (cases "x = c")
      case True
      with nz show ?thesis by (simp add: c_str_def strchr_def)
    next
      case False
      have s: "strchr (x # xs) c = map_option Suc (strchr xs c)"
        using nz False by (simp add: c_str_def strchr_def)
      show ?thesis
        using Cons.IH [OF Cons.prems] nz False
        by (cases "strchr xs c") (simp_all add: s, simp_all add: c_str_def)
    qed
  qed
qed

text \<open>
  Claim C9. When the address is empty, when \<^verbatim>\<open>inet_aton\<close> rejects it, or when the
  reverse lookup fails, \<^verbatim>\<open>updateHostName\<close> returns an error and the attribute map is
  the one it was given. When the lookup succeeds it returns success and has appended
  exactly two attributes, both writable: \<^verbatim>\<open>dns.1\<close> with the resolved name and
  \<^verbatim>\<open>hostname\<close> with that name cut at its first dot.
\<close>

theorem C9_updateHostName:
  "(addr = [] \<or> inet_aton env (c_str addr) = None \<or>
      (\<exists>a. inet_aton env (c_str addr) = Some a \<and> getnameinfo env a = None)
      \<longrightarrow> isl (fst (updateHostName env addr ext)) \<and> snd (updateHostName env addr ext) = ext) \<and>
   (addr \<noteq> [] \<and> inet_aton env (c_str addr) = Some a \<and> getnameinfo env a = Some dnsName
      \<longrightarrow> updateHostName env addr ext =
            (Inr (), ext @
               [(''dns.1'', MapExtObj_default\<lparr>ext_value := c_str dnsName, ext_readOnly := False\<rparr>),
                (''hostname'',
                 MapExtObj_default\<lparr>ext_value := takeWhile (\<lambda>c. c \<noteq> CHR ''.'') (c_str dnsName),
                                   ext_readOnly := False\<rparr>)]))"
proof (intro conjI impI)
  assume "addr = [] \<or> inet_aton env (c_str addr) = None \<or>
      (\<exists>a. inet_aton env (c_str addr) = Some a \<and> getnameinfo env a = None)"
  then show "isl (fst (updateHostName env addr ext))"
    by (auto simp: updateHostName_def)
next
  assume "addr = [] \<or> inet_aton env (c_str addr) = None \<or>
      (\<exists>a. inet_aton env (c_str addr) = Some a \<and> getnameinfo env a = None)"
  then show "snd (updateHostName env addr ext) = ext"
    by (auto simp: updateHostName_def)
next
  assume "addr \<noteq> [] \<and> inet_aton env (c_str addr) = Some a \<and> getnameinfo env a = Some dnsName"
  then show "updateHostName env addr ext =
            (Inr (), ext @
               [(''dns.1'', MapExtObj_default\<lparr>ext_value := c_str dnsName, ext_readOnly := False\<rparr>),
                (''hostname'',
                 MapExtObj_default\<lparr>ext_value := takeWhile (\<lambda>c. c \<noteq> CHR ''.'') (c_str dnsName),
                                   ext_readOnly := False\<rparr>)])"
    using c_str_truncate [of "CHR ''.''" dnsName]
    by (simp add: updateHostName_def Let_def)
qed

theorem C9_updateHostName_witness:
  "isl (fst (updateHostName example_resolver [] [])) \<and>
   snd (updateHostName example_resolver [] []) = [] \<and>
   isl (fst (updateHostName example_resolver ''10.0.0.2'' [])) \<and>
   snd (updateHostName example_resolver ''10.0.0.2'' []) = [] \<and>
   updateHostName example_resolver ''10.0.0.1'' [] =
     (Inr (), [(''dns.1'', \<lparr>ext_value = ''ups1.example.com'', ext_readOnly = False,
                             ext_update = True\<rparr>),
               (''hostname'', \<lparr>ext_value = ''ups1'', ext_readOnly = False,
                                ext_update = True\<rparr>)])"
  using C9_updateHostName [where addr = "[]" and env = example_resolver and ext = "[]"]
    C9_updateHostName [where addr = "''10.0.0.2''" and env = example_resolver and ext = "[]"]
    C9_updateHostName [where addr = "''10.0.0.1''" and env = example_resolver and ext = "[]"
      and a = 167772161 and dnsName = "''ups1.example.com'' @ [CHR 0x00]"]
  by (simp add: example_resolver_def c_str_def MapExtObj_default_def)

section \<open>The scan task\<close>

text \<open>
  An enumeration that throws ends the task at its first call: the exception is caught
  and the remaining count is still decremented.
\<close>

lemma scan_catches_exception:
  "snd (scan example_throwing_env ''10.0.0.1''
          (example_orchestrator\<lparr>m_listIpAddressNb := 1, m_listIpAddressCount := 1\<rparr>))
     = [Enumerate \<lparr>asset_address = ''10.0.0.1'', asset_protocol = ''nut_snmp'',
                   asset_port = 161, credentialId = ''c1''\<rparr>, Caught ''timeout''] \<and>
   m_listIpAddressCount (fst (scan example_throwing_env ''10.0.0.1''
          (example_orchestrator\<lparr>m_listIpAddressNb := 1, m_listIpAddressCount := 1\<rparr>))) = 0"
  by (simp add: scan_def scan_inProt_def example_throwing_env_def example_scan_env_def
      example_orchestrator_def example_request_def AutoDiscovery_new_def
      updateStatusDiscoveryProgress_def Let_def)

text \<open>
  Claim C2. For one address with one reachable protocol and the credentials c1 and
  c2, where the enumeration succeeds with no candidate for c1 and with one UPS for
  c2, the task makes the first enumeration call only: the empty success has set
  \<^verbatim>\<open>found\<close> and ended both loops. The second credential is never tried, nothing is
  published and nothing is counted, where the claim has the task go on to c2.
\<close>

theorem C2_empty_success_stops_task:
  "getAssets example_scan_env
     \<lparr>asset_address = ''10.0.0.1'', asset_protocol = ''nut_snmp'', asset_port = 161,
      credentialId = ''c1''\<rparr> = Returned [] \<and>
   getAssets example_scan_env
     \<lparr>asset_address = ''10.0.0.1'', asset_protocol = ''nut_snmp'', asset_port = 161,
      credentialId = ''c2''\<rparr> = Returned [example_asset] \<and>
   documents (discovery (m_params example_orchestrator)) = [''c1'', ''c2''] \<and>
   snd (scan example_scan_env ''10.0.0.1'' example_orchestrator)
     = [Enumerate \<lparr>asset_address = ''10.0.0.1'', asset_protocol = ''nut_snmp'',
                   asset_port = 161, credentialId = ''c1''\<rparr>] \<and>
   discovered (m_statusDiscovery (fst (scan example_scan_env ''10.0.0.1'' example_orchestrator)))
     = 0"
  by (simp add: scan_def scan_inProt_def example_scan_env_def example_orchestrator_def
      example_request_def AutoDiscovery_new_def updateStatusDiscoveryProgress_def Let_def)

end
